theory Spec2Isabelle
  imports Main "HOL-Library.Sublist"
begin

section \<open>Sidebar navigation: the section tree (Nav.tsx)\<close>

text \<open>
  The pages handed to \<^verbatim>\<open>SectionsNavIterate\<close> are a union of two shapes:
  a leaf page carries a \<^verbatim>\<open>link\<close>, a section page carries \<^verbatim>\<open>pages\<close>.
\<close>

datatype page =
    SECTION_LEAF_PAGE (name: string) (link: string)
  | SECTION_PAGE (name: string) (pages: "page list")

text \<open>\<^verbatim>\<open>isLeafPage\<close>: \<^verbatim>\<open>"link" in page\<close>.\<close>

fun isLeafPage :: "page \<Rightarrow> bool" where
  "isLeafPage (SECTION_LEAF_PAGE n l) = True"
| "isLeafPage (SECTION_PAGE n ps) = False"

text \<open>
  \<^verbatim>\<open>isCollapsed\<close>: no page of the given list is a leaf whose link is equal to
  \<^verbatim>\<open>location.pathname\<close>. The pathname, read from the router in the source,
  is an explicit argument here.
\<close>

definition isCollapsed :: "string \<Rightarrow> page list \<Rightarrow> bool" where
  "isCollapsed pathname ps =
     (\<not> list_ex (\<lambda>page. isLeafPage page \<and> pathname = link page) ps)"

text \<open>
  What \<^verbatim>\<open>SectionsNavIterate\<close> renders: a \<^verbatim>\<open>NavItem\<close> (href, title) for a
  leaf page, a \<^verbatim>\<open>Collapsible\<close> (header, startCollapsed, children) for a page
  with \<^verbatim>\<open>pages\<close>.
\<close>

datatype nav_view =
    NavItem string string
  | Collapsible string bool "nav_view list"

fun SectionsNavIterate :: "string \<Rightarrow> page list \<Rightarrow> nav_view list"
  and subsectionView :: "string \<Rightarrow> page \<Rightarrow> nav_view list" where
  "SectionsNavIterate pathname [] = []"
| "SectionsNavIterate pathname (p # ps) =
     subsectionView pathname p @ SectionsNavIterate pathname ps"
| "subsectionView pathname (SECTION_LEAF_PAGE n l) = [NavItem l n]"
| "subsectionView pathname (SECTION_PAGE n ps) =
     [Collapsible n (isCollapsed pathname ps) (SectionsNavIterate pathname ps)]"

text \<open>
  The headers of the collapsibles that start expanded, anywhere in the rendered tree.
\<close>

fun expandedHeaders :: "nav_view list \<Rightarrow> string list"
  and expandedHeader :: "nav_view \<Rightarrow> string list" where
  "expandedHeaders [] = []"
| "expandedHeaders (v # vs) = expandedHeader v @ expandedHeaders vs"
| "expandedHeader (NavItem h t) = []"
| "expandedHeader (Collapsible h c vs) =
     (if c then [] else [h]) @ expandedHeaders vs"

definition computeExpanded :: "page list \<Rightarrow> string \<Rightarrow> string set" where
  "computeExpanded displayTree currentPath =
     set (expandedHeaders (SectionsNavIterate currentPath displayTree))"

text \<open>
  The rule as the specification words it: some leaf of the section's subtree has a
  link that is a prefix of the current path.
\<close>

fun subtreeLinks :: "page list \<Rightarrow> string list"
  and pageLinks :: "page \<Rightarrow> string list" where
  "subtreeLinks [] = []"
| "subtreeLinks (p # ps) = pageLinks p @ subtreeLinks ps"
| "pageLinks (SECTION_LEAF_PAGE n l) = [l]"
| "pageLinks (SECTION_PAGE n ps) = subtreeLinks ps"

definition subtreeHasPrefixLeaf :: "string \<Rightarrow> page list \<Rightarrow> bool" where
  "subtreeHasPrefixLeaf currentPath ps =
     list_ex (\<lambda>l. prefix l currentPath) (subtreeLinks ps)"

text \<open>Every section page of a display tree, at any depth, in rendering order.\<close>

fun allSections :: "page list \<Rightarrow> page list"
  and pageSections :: "page \<Rightarrow> page list" where
  "allSections [] = []"
| "allSections (p # ps) = pageSections p @ allSections ps"
| "pageSections (SECTION_LEAF_PAGE n l) = []"
| "pageSections (SECTION_PAGE n ps) = SECTION_PAGE n ps # allSections ps"

definition exampleTree :: "page list" where
  "exampleTree =
     [SECTION_PAGE ''Guides''
        [SECTION_LEAF_PAGE ''Tutorial'' ''/tutorial'',
         SECTION_LEAF_PAGE ''How-to guides'' ''/how-to-guides''],
      SECTION_PAGE ''Reference''
        [SECTION_LEAF_PAGE ''Concepts'' ''/concepts'',
         SECTION_LEAF_PAGE ''API reference'' ''/api-reference'']]"

definition nestedTree :: "page list" where
  "nestedTree =
     [SECTION_PAGE ''Outer''
        [SECTION_PAGE ''Inner'' [SECTION_LEAF_PAGE ''Page'' ''/page'']]]"

section \<open>Sidebar navigation: the start sections (Nav.tsx)\<close>

datatype start_item = StartItem (item_header: string) (item_link: string)

datatype start_subsection =
  StartSubsection (sub_header: string) (sub_link: string)
    (sub_subsections: "start_item list option")

datatype start_section =
  StartSection (sec_header: string) (sec_link: string)
    (sec_subsections: "start_subsection list")

definition START_SECTIONS :: "start_section list" where
  "START_SECTIONS =
   [StartSection ''Getting started'' ''/start/getting-started''
      [StartSubsection ''What is SolidStart?'' ''/what-is-solidstart'' None,
       StartSubsection ''Project setup'' ''/project-setup'' None],
    StartSection ''Core concepts'' ''/start/core-concepts''
      [StartSubsection ''Routing & pages'' ''/routing-and-pages'' None,
       StartSubsection ''CSS and styling'' ''/css-and-styling'' None,
       StartSubsection ''Static assets'' ''/static-assets'' None,
       StartSubsection ''Head & metadata'' ''/head-and-metadata'' None,
       StartSubsection ''Data Loading'' ''/data-loading'' None,
       StartSubsection ''Actions & Data Writes'' ''/actions'' None,
       StartSubsection ''Resource Routes'' ''/resource-routes'' None,
       StartSubsection ''State management'' ''/state-management'' None,
       StartSubsection ''Request lifecycle'' ''/request-lifecycle'' None,
       StartSubsection ''Environments & deployment'' ''/environments-and-deployment'' None],
    StartSection ''Advanced concepts'' ''/start/advanced''
      [StartSubsection ''Streaming'' ''/streaming'' None,
       StartSubsection ''Caching'' ''/caching'' None,
       StartSubsection ''API routes'' ''/api-routes'' None,
       StartSubsection ''Usage with databases'' ''/databases'' None,
       StartSubsection ''Middleware'' ''/middleware'' None,
       StartSubsection ''Authentication'' ''/authentication'' None,
       StartSubsection ''Testing'' ''/testing'' None,
       StartSubsection ''Internationalization'' ''/i18n'' None,
       StartSubsection ''Static site generation'' ''/ssg'' None,
       StartSubsection ''SEO'' ''/seo'' None],
    StartSection ''API'' ''/start/api''
      [StartSubsection ''Error boundary'' ''/error-boundary'' None,
       StartSubsection ''Files'' ''/files'' None,
       StartSubsection ''Forms'' ''/forms'' None,
       StartSubsection ''Document'' ''/document''
         (Some [StartItem ''<Html />'' ''/Html'',
                StartItem ''Head'' ''/Head'',
                StartItem ''Body'' ''/Body'',
                StartItem ''Title'' ''/Title'',
                StartItem ''Meta'' ''/Meta'',
                StartItem ''Link'' ''/Link'',
                StartItem ''Script'' ''/Script'',
                StartItem ''Style'' ''/Style'',
                StartItem ''Stylesheet'' ''/Stylesheet'']),
       StartSubsection ''Router'' ''/router''
         (Some [StartItem ''useParams'' ''/useParams'']),
       StartSubsection ''Server'' ''/server'' None,
       StartSubsection ''Session'' ''/session'' None]]"

text \<open>
  The separator of the combined title is an em dash between two spaces; a
  \<^typ>\<open>string\<close> holds bytes, so the dash is its three UTF-8 bytes.
\<close>

definition emDash :: string where
  "emDash = [CHR 0xE2, CHR 0x80, CHR 0x94]"

datatype start_entry = StartEntry (entry_link: string) (entry_title: string)

text \<open>
  \<^verbatim>\<open>allStartSections\<close>: the two nested loops push one entry for each
  subsection of each section; the items nested below a subsection are not visited.
\<close>

definition allStartSections :: "start_entry list" where
  "allStartSections =
     concat (map (\<lambda>section.
       map (\<lambda>subsection.
              StartEntry (sec_link section @ sub_link subsection)
                (sec_header section @ '' '' @ emDash @ '' '' @ sub_header subsection))
           (sec_subsections section))
       START_SECTIONS)"

text \<open>\<^verbatim>\<open>Array.prototype.findIndex\<close>: the first index that satisfies, or \<open>-1\<close>.\<close>

fun findIndex :: "('a \<Rightarrow> bool) \<Rightarrow> 'a list \<Rightarrow> int" where
  "findIndex P [] = - 1"
| "findIndex P (x # xs) =
     (if P x then 0
      else (let r = findIndex P xs in if r = - 1 then - 1 else r + 1))"

definition startsWith :: "string \<Rightarrow> string \<Rightarrow> bool" where
  "startsWith s pre = prefix pre s"

text \<open>\<^verbatim>\<open>getStartSection\<close>; \<open>None\<close> is \<^verbatim>\<open>undefined\<close>.\<close>

definition getStartSection :: "string \<Rightarrow> start_entry option" where
  "getStartSection pathname =
     (let current = findIndex (\<lambda>section. startsWith pathname (entry_link section))
                      allStartSections
      in if current = int (length allStartSections) - 1 \<or> current = - 1 then None
         else Some (allStartSections ! nat (current + 1)))"

section \<open>Sidebar navigation: the mobile menu (Nav.tsx)\<close>

text \<open>
  The signals of \<^verbatim>\<open>Nav\<close>, the router's pathname, and the value the effect
  returned on its previous run (\<open>None\<close> before the first run, where the source has
  \<^verbatim>\<open>undefined\<close>).
\<close>

record nav_state =
  showMenu :: bool
  showPreferences :: bool
  pathname :: string
  prev :: "string option"

text \<open>One run of the effect of \<^verbatim>\<open>Nav\<close>.\<close>

definition navEffect :: "nav_state \<Rightarrow> nav_state" where
  "navEffect st =
     (let st' = (if Some (pathname st) \<noteq> prev st then st\<lparr>showMenu := False\<rparr> else st)
      in st'\<lparr>prev := Some (pathname st)\<rparr>)"

text \<open>
  What can happen to a mounted \<^verbatim>\<open>Nav\<close>: the router moves to a pathname (the
  effect runs again; its own guard compares with the previous value), the header calls
  \<^verbatim>\<open>setShowMenu\<close>, or the preferences header is clicked.
\<close>

datatype nav_event = Navigate string | SetShowMenu bool | TogglePreferences

fun navStep :: "nav_state \<Rightarrow> nav_event \<Rightarrow> nav_state" where
  "navStep st (Navigate p) = navEffect (st\<lparr>pathname := p\<rparr>)"
| "navStep st (SetShowMenu b) = st\<lparr>showMenu := b\<rparr>"
| "navStep st TogglePreferences = st\<lparr>showPreferences := \<not> showPreferences st\<rparr>"

text \<open>Mounting creates both signals as \<^verbatim>\<open>false\<close> and runs the effect once.\<close>

definition navMount :: "string \<Rightarrow> nav_state" where
  "navMount p =
     navEffect \<lparr>showMenu = False, showPreferences = False, pathname = p, prev = None\<rparr>"

definition navRun :: "string \<Rightarrow> nav_event list \<Rightarrow> nav_state" where
  "navRun p evs = foldl navStep (navMount p) evs"

section \<open>Page state (PageStateContext.tsx)\<close>

record Section =
  title :: string
  href :: string

record page_store =
  sections :: "Section list"
  path :: string

definition initialStore :: page_store where
  "initialStore = \<lparr>sections = [], path = ''''\<rparr>"

text \<open>\<^verbatim>\<open>addSection\<close>: the store's list with one entry appended.\<close>

definition addSection :: "string \<Rightarrow> string \<Rightarrow> page_store \<Rightarrow> page_store" where
  "addSection t h store = store\<lparr>sections := sections store @ [\<lparr>title = t, href = h\<rparr>]\<rparr>"

text \<open>The effect of the provider, run with the location's pathname.\<close>

definition pathEffect :: "string \<Rightarrow> page_store \<Rightarrow> page_store" where
  "pathEffect p store = (store\<lparr>sections := []\<rparr>)\<lparr>path := p\<rparr>"

text \<open>
  The provider's effect is created with \<^verbatim>\<open>createEffect\<close>: it runs once after the
  first render and again after a change of \<^verbatim>\<open>location.pathname\<close>, which it reads.
  Between the change of the pathname and the run of the effect the new page renders, and
  \<^verbatim>\<open>addSection\<close> can be called; so the state holds the store, the router's
  pathname, and whether a run of the effect is due, and the run is an event of its own.
\<close>

record provider_state =
  store :: page_store
  location :: string
  effectDue :: bool

datatype page_event = LocationChange string | EffectRun | AddSection string string

fun pageStep :: "provider_state \<Rightarrow> page_event \<Rightarrow> provider_state" where
  "pageStep st (LocationChange p) =
     st\<lparr>location := p, effectDue := (effectDue st \<or> p \<noteq> location st)\<rparr>"
| "pageStep st EffectRun =
     (if effectDue st
      then st\<lparr>store := pathEffect (location st) (store st), effectDue := False\<rparr>
      else st)"
| "pageStep st (AddSection t h) = st\<lparr>store := addSection t h (store st)\<rparr>"

text \<open>Creating the provider at pathname \<open>p\<close>: the first run of the effect is due.\<close>

definition providerMount :: "string \<Rightarrow> provider_state" where
  "providerMount p = \<lparr>store = initialStore, location = p, effectDue = True\<rparr>"

definition pageRun :: "string \<Rightarrow> page_event list \<Rightarrow> provider_state" where
  "pageRun p evs = foldl pageStep (providerMount p) evs"

text \<open>
  The entries added during the tenure of the current pathname, oldest first: those
  added with \<^verbatim>\<open>addSection\<close> since \<^verbatim>\<open>location.pathname\<close> last changed.
\<close>

fun tenureStep :: "string \<times> Section list \<Rightarrow> page_event \<Rightarrow> string \<times> Section list" where
  "tenureStep (loc, added) (LocationChange p) = (if p \<noteq> loc then (p, []) else (loc, added))"
| "tenureStep (loc, added) EffectRun = (loc, added)"
| "tenureStep (loc, added) (AddSection t h) = (loc, added @ [\<lparr>title = t, href = h\<rparr>])"

definition addedInTenure :: "string \<Rightarrow> page_event list \<Rightarrow> Section list" where
  "addedInTenure p evs = snd (foldl tenureStep (p, []) evs)"

text \<open>
  The invariant of a history: the tenure is that of the router's pathname and, when no
  run of the effect is due, the stored path is that pathname and the stored sections
  are the last of the entries added during its tenure.
\<close>

definition caughtUp :: "provider_state \<Rightarrow> string \<times> Section list \<Rightarrow> bool" where
  "caughtUp st ten =
     (fst ten = location st \<and>
      (\<not> effectDue st \<longrightarrow>
         path (store st) = location st \<and> suffix (sections (store st)) (snd ten)))"

section \<open>The route resolver of the specification\<close>

text \<open>
  Modelled from the spec: the repository holds no route table builder, segment matcher
  or path resolver (its sources are the sidebar component and the routing guide), so
  the data model follows section 3 of the specification: the kinds of a route segment.
\<close>

datatype RouteSegment = Static string | Dynamic string | Splat string | Index | Pathless

text \<open>
  Modelled from the spec: a route node (no implementation in the repository) has the
  segment that says how it matches, the declaration made for it, if any (the leaf flag
  and the opaque handler reference), and its children in declaration order.
\<close>

datatype RouteNode =
  RouteNode (segment: RouteSegment) (declared: "(bool \<times> nat) option")
    (children: "RouteNode list")

text \<open>
  Modelled from the spec: the leaf marker of a node (no implementation in the
  repository): a node renders itself when its declaration carries the leaf flag.
\<close>

definition isLeaf :: "RouteNode \<Rightarrow> bool" where
  "isLeaf n = (case declared n of Some (l, h) \<Rightarrow> l | None \<Rightarrow> False)"

text \<open>
  Modelled from the spec: the error taxonomy of section 7 (no implementation in the
  repository), one type for the builder and one for the resolver.
\<close>

datatype BuildError = DuplicateRoute

datatype ResolveError = NotFound

text \<open>
  Modelled from the spec: a node reference in a match result (no implementation in the
  repository); a node of the tree is identified by the segments on the way from the
  root to it.
\<close>

type_synonym NodeRef = "RouteSegment list"

text \<open>
  Modelled from the spec: a match result (the ancestor chain from the root, one
  mapping of parameter names to values with the earlier binding first, the unmatched
  remainder) and a route declaration (its slash-separated path, its leaf flag, its
  handler reference); neither has an implementation in the repository.
\<close>

record MatchResult =
  chain :: "NodeRef list"
  params :: "(string \<times> string) list"
  remainder :: "string list"

record RouteDeclaration =
  decl_path :: string
  decl_leaf :: bool
  decl_handler :: nat

subsection \<open>Paths\<close>

text \<open>
  Modelled from the spec: path normalisation (section 4.3, no implementation in the
  repository): the sequence of the non-empty segments between the slashes; the root
  path gives the empty sequence.
\<close>

fun splitPath :: "string \<Rightarrow> string list" where
  "splitPath [] = [[]]"
| "splitPath (c # cs) =
     (if c = CHR ''/'' then [] # splitPath cs
      else (case splitPath cs of [] \<Rightarrow> [[c]] | w # ws \<Rightarrow> (c # w) # ws))"

definition normalizePath :: "string \<Rightarrow> string list" where
  "normalizePath p = filter (\<lambda>s. s \<noteq> []) (splitPath p)"

fun joinSegments :: "string list \<Rightarrow> string" where
  "joinSegments [] = []"
| "joinSegments [s] = s"
| "joinSegments (s # t # ss) = s @ ''/'' @ joinSegments (t # ss)"

text \<open>
  Modelled from the spec: how a declared segment is read (no implementation in the
  repository). The specification writes declarations in the notation of the routing
  guide: \<^verbatim>\<open>[...name]\<close> is a splat, \<^verbatim>\<open>[name]\<close> a dynamic segment,
  \<^verbatim>\<open>index\<close> the index route, a name that starts with two underscores a
  pathless layout, anything else a static literal.
\<close>

definition parseSegment :: "string \<Rightarrow> RouteSegment" where
  "parseSegment s =
     (if s = ''index'' then Index
      else if prefix ''[...'' s \<and> last s = CHR '']'' then Splat (butlast (drop 4 s))
      else if prefix ''['' s \<and> last s = CHR '']'' \<and> 2 \<le> length s
        then Dynamic (butlast (drop 1 s))
      else if prefix ''__'' s then Pathless
      else Static s)"

definition declSegments :: "RouteDeclaration \<Rightarrow> RouteSegment list" where
  "declSegments d = map parseSegment (normalizePath (decl_path d))"

subsection \<open>Route table builder\<close>

text \<open>
  Modelled from the spec: the route table builder (section 4.1, no implementation in
  the repository). Two segments take the same place among the children of a node when
  they are the same static literal or the same dynamic name; a node has one place for
  a splat, one for an index and one for a pathless layout.
\<close>

fun sameSlot :: "RouteSegment \<Rightarrow> RouteSegment \<Rightarrow> bool" where
  "sameSlot (Static a) g = (g = Static a)"
| "sameSlot (Dynamic a) g = (g = Dynamic a)"
| "sameSlot (Splat a) g = (case g of Splat b \<Rightarrow> True | _ \<Rightarrow> False)"
| "sameSlot Index g = (g = Index)"
| "sameSlot Pathless g = (g = Pathless)"

fun childIndex :: "RouteSegment \<Rightarrow> RouteNode list \<Rightarrow> nat option" where
  "childIndex g [] = None"
| "childIndex g (c # cs) =
     (if sameSlot g (segment c) then Some 0 else map_option Suc (childIndex g cs))"

text \<open>
  Modelled from the spec: one declaration enters the tree along its segments; nodes
  that are missing on the way are appended to the children, and a node that has a
  declaration already rejects a second one.
\<close>

fun insertRoute :: "RouteSegment list \<Rightarrow> bool \<times> nat \<Rightarrow> RouteNode \<Rightarrow> BuildError + RouteNode" where
  "insertRoute [] d n =
     (case declared n of
        Some d' \<Rightarrow> Inl DuplicateRoute
      | None \<Rightarrow> Inr (RouteNode (segment n) (Some d) (children n)))"
| "insertRoute (g # gs) d n =
     (case childIndex g (children n) of
        None \<Rightarrow>
          (case insertRoute gs d (RouteNode g None []) of
             Inl e \<Rightarrow> Inl e
           | Inr c \<Rightarrow> Inr (RouteNode (segment n) (declared n) (children n @ [c])))
      | Some i \<Rightarrow>
          (case insertRoute gs d (children n ! i) of
             Inl e \<Rightarrow> Inl e
           | Inr c \<Rightarrow> Inr (RouteNode (segment n) (declared n) ((children n)[i := c]))))"

text \<open>
  Modelled from the spec: whether a path is declared in a table (no implementation in
  the repository): the node reached along the segments holds a declaration.
\<close>

fun isDeclaredAt :: "RouteNode \<Rightarrow> RouteSegment list \<Rightarrow> bool" where
  "isDeclaredAt n [] = (declared n \<noteq> None)"
| "isDeclaredAt n (g # gs) =
     (case childIndex g (children n) of
        None \<Rightarrow> False
      | Some i \<Rightarrow> isDeclaredAt (children n ! i) gs)"

text \<open>
  Modelled from the spec: the parameter names the segments of one chain bind, in
  order; a declaration whose chain binds a name twice is a duplicate route (sections
  4.3 and 7, no implementation in the repository).
\<close>

fun boundNames :: "RouteSegment \<Rightarrow> string list" where
  "boundNames (Dynamic n) = [n]"
| "boundNames (Splat n) = [n]"
| "boundNames g = []"

definition paramNames :: "RouteSegment list \<Rightarrow> string list" where
  "paramNames gs = concat (map boundNames gs)"

definition addRoute :: "RouteDeclaration \<Rightarrow> RouteNode \<Rightarrow> BuildError + RouteNode" where
  "addRoute d t =
     (if \<not> distinct (paramNames (declSegments d)) then Inl DuplicateRoute
      else insertRoute (declSegments d) (decl_leaf d, decl_handler d) t)"

text \<open>
  Modelled from the spec: the build (section 4.1, no implementation in the
  repository) starts from a root that consumes no segment and takes the declarations
  in input order; the first rejected declaration aborts it.
\<close>

definition rootNode :: RouteNode where
  "rootNode = RouteNode Pathless None []"

fun buildFrom :: "RouteNode \<Rightarrow> RouteDeclaration list \<Rightarrow> BuildError + RouteNode" where
  "buildFrom t [] = Inr t"
| "buildFrom t (d # ds) =
     (case addRoute d t of Inl e \<Rightarrow> Inl e | Inr t' \<Rightarrow> buildFrom t' ds)"

definition buildRouteTable :: "RouteDeclaration list \<Rightarrow> BuildError + RouteNode" where
  "buildRouteTable ds = buildFrom rootNode ds"

text \<open>
  Modelled from the spec: a declaration of a rendering route and of a layout-only
  route, with handler reference \<open>h\<close>.
\<close>

definition route :: "string \<Rightarrow> nat \<Rightarrow> RouteDeclaration" where
  "route p h = \<lparr>decl_path = p, decl_leaf = True, decl_handler = h\<rparr>"

definition layout :: "string \<Rightarrow> nat \<Rightarrow> RouteDeclaration" where
  "layout p h = \<lparr>decl_path = p, decl_leaf = False, decl_handler = h\<rparr>"

subsection \<open>Segment matcher and path resolver\<close>

text \<open>
  Modelled from the spec: the segment matcher (section 4.2, no implementation in the
  repository). Matching a child at the segment cursor gives the parameters it binds,
  the segments left for its subtree, and whether the descent goes on below it: a
  static child takes the next segment when it is equal to its literal, a dynamic child
  takes any next segment of length at least one, a splat takes all that remains
  (none included) and ends the descent, an index matches at the end of the path only
  and ends the descent, a pathless child takes nothing.
\<close>

fun matchChild :: "RouteSegment \<Rightarrow> string list \<Rightarrow> ((string \<times> string) list \<times> string list \<times> bool) option" where
  "matchChild (Static lit) [] = None"
| "matchChild (Static lit) (s # rest) = (if s = lit then Some ([], rest, True) else None)"
| "matchChild (Dynamic n) [] = None"
| "matchChild (Dynamic n) (s # rest) =
     (if 1 \<le> length s then Some ([(n, s)], rest, True) else None)"
| "matchChild (Splat n) segs = Some ([(n, joinSegments segs)], [], False)"
| "matchChild Index segs = (if segs = [] then Some ([], [], False) else None)"
| "matchChild Pathless segs = Some ([], segs, True)"

text \<open>
  Modelled from the spec: the precedence of the kinds at one level, Static before
  Dynamic before Splat before Index; the specification gives the pathless layouts no
  rank, they are tried last.
\<close>

fun kindRank :: "RouteSegment \<Rightarrow> nat" where
  "kindRank (Static lit) = 0"
| "kindRank (Dynamic n) = 1"
| "kindRank (Splat n) = 2"
| "kindRank Index = 3"
| "kindRank Pathless = 4"

text \<open>
  Modelled from the spec: the first candidate that succeeds wins (section 4.3).
\<close>

fun firstMatch :: "'a option list \<Rightarrow> 'a option" where
  "firstMatch [] = None"
| "firstMatch (None # rs) = firstMatch rs"
| "firstMatch (Some r # rs) = Some r"

text \<open>
  Modelled from the spec: the path resolver (section 4.3, no implementation in the
  repository): a depth-first descent that tries the children of a node in the order of
  their rank, children of one rank in declaration order, and goes back to the next
  candidate when a subtree cannot consume the remaining segments. A node with nothing
  left to consume and no matching child ends the chain when it is a leaf.
\<close>

fun resolveFrom :: "RouteNode \<Rightarrow> NodeRef \<Rightarrow> string list \<Rightarrow> (NodeRef list \<times> (string \<times> string) list) option"
  and tryRank :: "nat \<Rightarrow> RouteNode list \<Rightarrow> NodeRef \<Rightarrow> string list \<Rightarrow> (NodeRef list \<times> (string \<times> string) list) option" where
  "resolveFrom (RouteNode g d cs) ref segs =
     (case firstMatch [tryRank 0 cs ref segs, tryRank 1 cs ref segs, tryRank 2 cs ref segs,
                       tryRank 3 cs ref segs, tryRank 4 cs ref segs] of
        Some (below, ps) \<Rightarrow> Some (ref # below, ps)
      | None \<Rightarrow> if segs = [] \<and> isLeaf (RouteNode g d cs) then Some ([ref], []) else None)"
| "tryRank k [] ref segs = None"
| "tryRank k (c # cs) ref segs =
     (if kindRank (segment c) \<noteq> k then tryRank k cs ref segs
      else (case matchChild (segment c) segs of
              None \<Rightarrow> tryRank k cs ref segs
            | Some (binds, rest, descend) \<Rightarrow>
                if descend then
                  (case resolveFrom c (ref @ [segment c]) rest of
                     Some (below, ps) \<Rightarrow> Some (below, binds @ ps)
                   | None \<Rightarrow> tryRank k cs ref segs)
                else Some ([ref @ [segment c]], binds)))"

text \<open>
  Modelled from the spec: \<^verbatim>\<open>resolve(tree, path)\<close> (section 4.3, no implementation
  in the repository) returns a match result or the value \<open>NotFound\<close>.
\<close>

definition resolve :: "RouteNode \<Rightarrow> string \<Rightarrow> ResolveError + MatchResult" where
  "resolve tree p =
     (case resolveFrom tree [] (normalizePath p) of
        None \<Rightarrow> Inl NotFound
      | Some (nodes, ps) \<Rightarrow> Inr \<lparr>chain = nodes, params = ps, remainder = []\<rparr>)"








subsection \<open>Reload classification\<close>

text \<open>
  Modelled from the spec: the two classes of the reload classification (section 4.3,
  no implementation in the repository).
\<close>

datatype ReloadClass = ReusedWithoutRefetch | MustRefetch

text \<open>
  Modelled from the spec: the rule for one node of the new chain. The parameters a node binds itself are those of its own segment,
  the last of its reference.
\<close>

definition ownParams :: "NodeRef \<Rightarrow> string list" where
  "ownParams ref = (if ref = [] then [] else boundNames (last ref))"

definition ownParamsUnchanged :: "MatchResult \<Rightarrow> MatchResult \<Rightarrow> NodeRef \<Rightarrow> bool" where
  "ownParamsUnchanged old new ref =
     list_all (\<lambda>n. map_of (params old) n = map_of (params new) n) (ownParams ref)"

definition classifyNode :: "MatchResult \<Rightarrow> MatchResult \<Rightarrow> nat \<Rightarrow> ReloadClass" where
  "classifyNode old new i =
     (if i < length (chain old) \<and> chain old ! i = chain new ! i \<and>
         ownParamsUnchanged old new (chain new ! i)
      then ReusedWithoutRefetch else MustRefetch)"

text \<open>
  Modelled from the spec: one class for each node of the new chain, in chain order;
  a changed query string or an action-triggered navigation forces the whole chain to
  must-refetch.
\<close>

definition reloadClassification :: "MatchResult \<Rightarrow> MatchResult \<Rightarrow> bool \<Rightarrow> bool \<Rightarrow> ReloadClass list" where
  "reloadClassification old new queryChanged actionTriggered =
     (if queryChanged \<or> actionTriggered then map (\<lambda>i. MustRefetch) [0..<length (chain new)]
      else map (classifyNode old new) [0..<length (chain new)])"

text \<open>
  Modelled from the spec: the query-string portion of a path is what follows the first
  question mark; the resolver sees what precedes it.
\<close>

definition pathPart :: "string \<Rightarrow> string" where
  "pathPart url = takeWhile (\<lambda>c. c \<noteq> CHR ''?'') url"

definition queryPart :: "string \<Rightarrow> string" where
  "queryPart url = drop 1 (dropWhile (\<lambda>c. c \<noteq> CHR ''?'') url)"

definition classifyNavigation :: "RouteNode \<Rightarrow> string \<Rightarrow> string \<Rightarrow> bool \<Rightarrow> ResolveError + ReloadClass list" where
  "classifyNavigation tree oldUrl newUrl actionTriggered =
     (case resolve tree (pathPart oldUrl) of
        Inl e \<Rightarrow> Inl e
      | Inr old \<Rightarrow>
          (case resolve tree (pathPart newUrl) of
             Inl e \<Rightarrow> Inl e
           | Inr new \<Rightarrow>
               Inr (reloadClassification old new (queryPart oldUrl \<noteq> queryPart newUrl)
                      actionTriggered)))"

text \<open>
  The table of the declaration \<^verbatim>\<open>/users/[userId]/projects/[id]\<close> and the match
  result of \<^verbatim>\<open>/users/1/projects/v\<close> in it.
\<close>

definition projectsTable :: RouteNode where
  "projectsTable =
     RouteNode Pathless None [RouteNode (Static ''users'') None
       [RouteNode (Dynamic ''userId'') None [RouteNode (Static ''projects'') None
          [RouteNode (Dynamic ''id'') (Some (True, 1)) []]]]]"

definition projectMatch :: "string \<Rightarrow> MatchResult" where
  "projectMatch v =
     \<lparr>chain = [[], [Static ''users''], [Static ''users'', Dynamic ''userId''],
               [Static ''users'', Dynamic ''userId'', Static ''projects''],
               [Static ''users'', Dynamic ''userId'', Static ''projects'', Dynamic ''id'']],
      params = [(''userId'', ''1''), (''id'', v)], remainder = []\<rparr>"

section \<open>Properties of the section tree\<close>

lemma expandedHeaders_append:
  "expandedHeaders (xs @ ys) = expandedHeaders xs @ expandedHeaders ys"
  by (induction xs) simp_all

lemma expandedHeaders_render:
  "expandedHeaders (SectionsNavIterate p t) =
     map name (filter (\<lambda>s. \<not> isCollapsed p (pages s)) (allSections t))"
  "expandedHeaders (subsectionView p q) =
     map name (filter (\<lambda>s. \<not> isCollapsed p (pages s)) (pageSections q))"
  by (induction p t and p q rule: SectionsNavIterate_subsectionView.induct)
     (simp_all add: expandedHeaders_append)

text \<open>
  C1, as the specification states it, fails on the rendering code. In the example tree
  the Reference section has a leaf whose link \<^verbatim>\<open>/api-reference\<close> is a prefix of
  \<^verbatim>\<open>/api-reference/signals\<close>, yet it is not in the expanded set: the code
  compares the link and the pathname for equality. And a section whose matching leaf
  lies one level deeper is not expanded either: the code looks at the section's own
  pages only.
\<close>

theorem computeExpanded_prefix_subtree_counterexample:
  "subtreeHasPrefixLeaf ''/api-reference/signals'' (pages (exampleTree ! 1)) \<and>
   ''Reference'' \<notin> computeExpanded exampleTree ''/api-reference/signals'' \<and>
   subtreeHasPrefixLeaf ''/page'' (pages (nestedTree ! 0)) \<and>
   ''Outer'' \<notin> computeExpanded nestedTree ''/page''"
  by (simp add: computeExpanded_def exampleTree_def nestedTree_def isCollapsed_def
      subtreeHasPrefixLeaf_def)

text \<open>
  C1, amended: for every display tree and every current path, a header is in the
  expanded set if and only if it is the name of a section page of the tree, at any
  depth, one of whose own pages is a leaf whose link is equal to the current path.
\<close>

theorem computeExpanded_direct_equal:
  "n \<in> computeExpanded displayTree currentPath \<longleftrightarrow>
     (\<exists>s \<in> set (allSections displayTree). name s = n \<and>
        (\<exists>q \<in> set (pages s). isLeafPage q \<and> link q = currentPath))"
  unfolding computeExpanded_def expandedHeaders_render isCollapsed_def
  by (auto simp: list_ex_iff)

theorem computeExpanded_direct_equal_witness:
  "''Reference'' \<in> computeExpanded exampleTree ''/api-reference'' \<and>
   ''Guides'' \<notin> computeExpanded exampleTree ''/api-reference'' \<and>
   ''Guides'' \<notin> computeExpanded exampleTree ''/api-reference/signals''"
  using computeExpanded_direct_equal [of "''Reference''" exampleTree "''/api-reference''"]
    computeExpanded_direct_equal [of "''Guides''" exampleTree "''/api-reference''"]
    computeExpanded_direct_equal [of "''Guides''" exampleTree "''/api-reference/signals''"]
  by (simp add: exampleTree_def)

section \<open>Properties of the start sections\<close>

lemma findIndex_none: "(\<forall>x\<in>set xs. \<not> P x) \<Longrightarrow> findIndex P xs = - 1"
  by (induction xs) (auto simp: Let_def)

lemma findIndex_first:
  "i < length xs \<Longrightarrow> P (xs ! i) \<Longrightarrow> (\<forall>j<i. \<not> P (xs ! j)) \<Longrightarrow> findIndex P xs = int i"
proof (induction xs arbitrary: i)
  case Nil
  then show ?case by simp
next
  case (Cons x xs)
  show ?case
  proof (cases i)
    case 0
    with Cons.prems show ?thesis by simp
  next
    case (Suc k)
    with Cons.prems have "\<not> P x" by auto
    moreover from Suc Cons.prems have "findIndex P xs = int k"
      by (intro Cons.IH) auto
    ultimately show ?thesis using Suc by (simp add: Let_def)
  qed
qed

text \<open>
  C10: \<^verbatim>\<open>getStartSection\<close> returns \<^verbatim>\<open>undefined\<close> when no entry of the
  flattened list has a link that is a prefix of the pathname, and when the first such
  entry is the last of the list; otherwise it returns the entry that follows the first
  such entry.
\<close>

theorem getStartSection_next:
  "((\<forall>s\<in>set allStartSections. \<not> prefix (entry_link s) p) \<longrightarrow> getStartSection p = None) \<and>
   (i < length allStartSections \<and> prefix (entry_link (allStartSections ! i)) p \<and>
    (\<forall>j<i. \<not> prefix (entry_link (allStartSections ! j)) p) \<longrightarrow>
      getStartSection p =
        (if i = length allStartSections - 1 then None
         else Some (allStartSections ! (i + 1))))"
proof (intro conjI impI)
  assume "\<forall>s\<in>set allStartSections. \<not> prefix (entry_link s) p"
  then have "findIndex (\<lambda>section. startsWith p (entry_link section)) allStartSections = - 1"
    by (intro findIndex_none) (simp add: startsWith_def)
  then show "getStartSection p = None"
    by (simp add: getStartSection_def)
next
  assume a: "i < length allStartSections \<and> prefix (entry_link (allStartSections ! i)) p \<and>
    (\<forall>j<i. \<not> prefix (entry_link (allStartSections ! j)) p)"
  then have "findIndex (\<lambda>section. startsWith p (entry_link section)) allStartSections = int i"
    by (intro findIndex_first) (simp_all add: startsWith_def)
  with a show "getStartSection p =
        (if i = length allStartSections - 1 then None
         else Some (allStartSections ! (i + 1)))"
    by (auto simp add: getStartSection_def Let_def nat_add_distrib)
qed

theorem getStartSection_next_witness:
  "getStartSection ''/'' = None \<and>
   getStartSection ''/start/getting-started/what-is-solidstart'' =
     Some (StartEntry ''/start/getting-started/project-setup''
             (''Getting started '' @ emDash @ '' Project setup'')) \<and>
   getStartSection ''/start/core-concepts/routing-and-pages/nested'' =
     Some (StartEntry ''/start/core-concepts/css-and-styling''
             (''Core concepts '' @ emDash @ '' CSS and styling''))"
  using getStartSection_next [of "''/''" 0]
    getStartSection_next [of "''/start/getting-started/what-is-solidstart''" 0]
    getStartSection_next [of "''/start/core-concepts/routing-and-pages/nested''" 2]
  by (simp add: allStartSections_def START_SECTIONS_def less_Suc_eq numeral_2_eq_2)

section \<open>Properties of the mobile menu\<close>

lemma navEffect_prev: "prev (navEffect st) = Some (pathname st)"
  by (simp add: navEffect_def Let_def)

lemma navEffect_pathname: "pathname (navEffect st) = pathname st"
  by (simp add: navEffect_def Let_def)

lemma navStep_prev:
  "prev st = Some (pathname st) \<Longrightarrow> prev (navStep st e) = Some (pathname (navStep st e))"
  by (cases e) (simp_all add: navEffect_prev navEffect_pathname)

lemma foldl_navStep_prev:
  "prev st = Some (pathname st) \<Longrightarrow>
   prev (foldl navStep st evs) = Some (pathname (foldl navStep st evs))"
  by (induction evs arbitrary: st) (simp_all add: navStep_prev)

text \<open>In every state a mounted \<^verbatim>\<open>Nav\<close> reaches, the effect has seen the pathname.\<close>

lemma navRun_prev: "prev (navRun p evs) = Some (pathname (navRun p evs))"
  unfolding navRun_def navMount_def
  by (rule foldl_navStep_prev) (simp add: navEffect_prev navEffect_pathname)

text \<open>
  C8: from every state the component reaches, a transition to a different pathname
  leaves \<^verbatim>\<open>showMenu\<close> false, and a transition to the same pathname leaves
  \<^verbatim>\<open>showMenu\<close> as it was.
\<close>

theorem path_change_closes_menu:
  "(p \<noteq> pathname (navRun p0 evs) \<longrightarrow>
      \<not> showMenu (navStep (navRun p0 evs) (Navigate p))) \<and>
   (p = pathname (navRun p0 evs) \<longrightarrow>
      showMenu (navStep (navRun p0 evs) (Navigate p)) = showMenu (navRun p0 evs))"
  using navRun_prev [of p0 evs] by (auto simp: navEffect_def Let_def)

theorem path_change_closes_menu_witness:
  "pathname (navRun ''/'' [SetShowMenu True]) = ''/'' \<and>
   showMenu (navRun ''/'' [SetShowMenu True]) \<and>
   \<not> showMenu (navStep (navRun ''/'' [SetShowMenu True]) (Navigate ''/tutorial'')) \<and>
   showMenu (navStep (navRun ''/'' [SetShowMenu True]) (Navigate ''/''))"
  using path_change_closes_menu [of "''/tutorial''" "''/''" "[SetShowMenu True]"]
    path_change_closes_menu [of "''/''" "''/''" "[SetShowMenu True]"]
  by (simp add: navRun_def navMount_def navEffect_def)

section \<open>Properties of the page state\<close>

lemma suffix_snoc: "suffix xs ys \<Longrightarrow> suffix (xs @ [e]) (ys @ [e])"
  by (auto simp: suffix_def)

lemma caughtUp_step: "caughtUp st ten \<Longrightarrow> caughtUp (pageStep st e) (tenureStep ten e)"
proof (cases ten)
  case (Pair loc added)
  assume "caughtUp st ten"
  with Pair show ?thesis
    by (cases e) (auto simp: caughtUp_def pathEffect_def addSection_def suffix_snoc)
qed

lemma caughtUp_foldl:
  "caughtUp st ten \<Longrightarrow> caughtUp (foldl pageStep st evs) (foldl tenureStep ten evs)"
  by (induction evs arbitrary: st ten) (simp_all add: caughtUp_step)

lemma caughtUp_run: "caughtUp (pageRun p evs) (foldl tenureStep (p, []) evs)"
  unfolding pageRun_def
  by (rule caughtUp_foldl) (simp add: caughtUp_def providerMount_def)

text \<open>
  C9, as stated, fails on the provider: the effect runs after the new page has
  rendered, so the reset does not come before the new sections. After a change of
  pathname and one \<^verbatim>\<open>addSection\<close>, \<^verbatim>\<open>sections()\<close> still holds an entry of
  the previous pathname; and the run of the effect then deletes the entry that was
  added during the tenure of the current pathname.
\<close>

theorem page_state_counterexample:
  "sections (store (pageRun ''/'' [EffectRun, AddSection ''Old'' ''#old'', LocationChange ''/next'',
       AddSection ''New'' ''#new''])) =
     [\<lparr>title = ''Old'', href = ''#old''\<rparr>, \<lparr>title = ''New'', href = ''#new''\<rparr>] \<and>
   addedInTenure ''/'' [EffectRun, AddSection ''Old'' ''#old'', LocationChange ''/next'',
       AddSection ''New'' ''#new''] = [\<lparr>title = ''New'', href = ''#new''\<rparr>] \<and>
   sections (store (pageRun ''/'' [EffectRun, AddSection ''Old'' ''#old'', LocationChange ''/next'',
       AddSection ''New'' ''#new'', EffectRun])) = [] \<and>
   addedInTenure ''/'' [EffectRun, AddSection ''Old'' ''#old'', LocationChange ''/next'',
       AddSection ''New'' ''#new'', EffectRun] = [\<lparr>title = ''New'', href = ''#new''\<rparr>]"
  by (simp add: pageRun_def providerMount_def addedInTenure_def pathEffect_def addSection_def
      initialStore_def)

text \<open>
  C9, amended: a due run of the provider's effect leaves an empty list of sections and
  the current pathname as the stored path; \<^verbatim>\<open>addSection\<close> appends one entry and
  keeps the earlier ones, in order; and after any history, once no run of the effect is
  due, the stored path is the current pathname and \<^verbatim>\<open>sections()\<close> is the last
  part of the entries added during the tenure of the current pathname, in the order of
  the calls.
\<close>

theorem page_state_sections:
  "(effectDue st \<longrightarrow>
      store (pageStep st EffectRun) = \<lparr>sections = [], path = location st\<rparr>) \<and>
   addSection t h s =
     \<lparr>sections = sections s @ [\<lparr>title = t, href = h\<rparr>], path = path s\<rparr> \<and>
   (\<not> effectDue (pageRun p evs) \<longrightarrow>
      path (store (pageRun p evs)) = location (pageRun p evs) \<and>
      suffix (sections (store (pageRun p evs))) (addedInTenure p evs))"
  using caughtUp_run [of p evs]
  by (auto simp: caughtUp_def addedInTenure_def pathEffect_def addSection_def)

theorem page_state_sections_witness:
  "store (pageStep (providerMount ''/'') EffectRun) = \<lparr>sections = [], path = ''/''\<rparr> \<and>
   \<not> effectDue (pageRun ''/'' [EffectRun, AddSection ''a'' ''#a'', LocationChange ''/x'',
       AddSection ''b'' ''#b'', EffectRun, AddSection ''c'' ''#c'']) \<and>
   store (pageRun ''/'' [EffectRun, AddSection ''a'' ''#a'', LocationChange ''/x'',
       AddSection ''b'' ''#b'', EffectRun, AddSection ''c'' ''#c'']) =
     \<lparr>sections = [\<lparr>title = ''c'', href = ''#c''\<rparr>], path = ''/x''\<rparr> \<and>
   addedInTenure ''/'' [EffectRun, AddSection ''a'' ''#a'', LocationChange ''/x'',
       AddSection ''b'' ''#b'', EffectRun, AddSection ''c'' ''#c''] =
     [\<lparr>title = ''b'', href = ''#b''\<rparr>, \<lparr>title = ''c'', href = ''#c''\<rparr>] \<and>
   suffix [\<lparr>title = ''c'', href = ''#c''\<rparr>]
     [\<lparr>title = ''b'', href = ''#b''\<rparr>, \<lparr>title = ''c'', href = ''#c''\<rparr>]"
  using page_state_sections [of "providerMount ''/''" "''c''" "''#c''" initialStore "''/''"
      "[EffectRun, AddSection ''a'' ''#a'', LocationChange ''/x'',
        AddSection ''b'' ''#b'', EffectRun, AddSection ''c'' ''#c'']"]
  by (simp add: pageRun_def providerMount_def addedInTenure_def pathEffect_def addSection_def
      initialStore_def)

section \<open>Properties of the path resolver\<close>






lemmas build_simps = buildRouteTable_def addRoute_def route_def layout_def declSegments_def
  normalizePath_def parseSegment_def paramNames_def rootNode_def




lemma build_projects:
  "buildRouteTable [route ''/users/[userId]/projects/[id]'' h] =
     Inr (RouteNode Pathless None [RouteNode (Static ''users'') None
       [RouteNode (Dynamic ''userId'') None [RouteNode (Static ''projects'') None
          [RouteNode (Dynamic ''id'') (Some (True, h)) []]]]])"
  by (simp add: build_simps)

lemma build_a:
  "buildRouteTable [route ''/a'' h] =
     Inr (RouteNode Pathless None [RouteNode (Static ''a'') (Some (True, h)) []])"
  by (simp add: build_simps)

subsection \<open>One level of the descent\<close>



























subsection \<open>Static and splat siblings\<close>




subsection \<open>Index and dynamic children\<close>




subsection \<open>A dynamic segment and the missing segment\<close>




section \<open>Properties of the reload classification\<close>

lemma resolve_project9:
  "resolve projectsTable ''/users/1/projects/9'' = Inr (projectMatch ''9'')"
  by (simp add: projectsTable_def projectMatch_def resolve_def normalizePath_def isLeaf_def)

lemma resolve_project10:
  "resolve projectsTable ''/users/1/projects/10'' = Inr (projectMatch ''10'')"
  by (simp add: projectsTable_def projectMatch_def resolve_def normalizePath_def isLeaf_def)

text \<open>
  C5, as stated, fails on the classification of the specification: from
  \<^verbatim>\<open>/users/1/projects/9?tab=a\<close> to \<^verbatim>\<open>/users/1/projects/10?tab=b\<close>, two
  different paths, the node of the user is at the same depth of both chains, is the
  same node, and its own parameter keeps the value 1; it is classified must-refetch all
  the same, because the query string changed. The data loading guide says the same of
  a change of the search params: all of the routes are reloaded, instead of just the
  new or changed routes.
\<close>

theorem reuse_rule_counterexample:
  "buildRouteTable [route ''/users/[userId]/projects/[id]'' 1] = Inr projectsTable \<and>
   resolve projectsTable (pathPart ''/users/1/projects/9?tab=a'') = Inr (projectMatch ''9'') \<and>
   resolve projectsTable (pathPart ''/users/1/projects/10?tab=b'') =
     Inr (projectMatch ''10'') \<and>
   normalizePath (pathPart ''/users/1/projects/9?tab=a'') \<noteq>
     normalizePath (pathPart ''/users/1/projects/10?tab=b'') \<and>
   chain (projectMatch ''10'') ! 2 = [Static ''users'', Dynamic ''userId''] \<and>
   2 < length (chain (projectMatch ''9'')) \<and>
   chain (projectMatch ''9'') ! 2 = chain (projectMatch ''10'') ! 2 \<and>
   ownParamsUnchanged (projectMatch ''9'') (projectMatch ''10'')
     (chain (projectMatch ''10'') ! 2) \<and>
   classifyNavigation projectsTable ''/users/1/projects/9?tab=a''
     ''/users/1/projects/10?tab=b'' False =
     Inr [MustRefetch, MustRefetch, MustRefetch, MustRefetch, MustRefetch]"
proof -
  have p: "pathPart ''/users/1/projects/9?tab=a'' = ''/users/1/projects/9''"
    "pathPart ''/users/1/projects/10?tab=b'' = ''/users/1/projects/10''"
    "queryPart ''/users/1/projects/9?tab=a'' \<noteq> queryPart ''/users/1/projects/10?tab=b''"
    by (simp_all add: pathPart_def queryPart_def)
  have o: "resolve projectsTable ''/users/1/projects/9'' = Inr (projectMatch ''9'')"
    by (simp add: projectsTable_def projectMatch_def resolve_def normalizePath_def isLeaf_def)
  have n: "resolve projectsTable ''/users/1/projects/10'' = Inr (projectMatch ''10'')"
    by (simp add: projectsTable_def projectMatch_def resolve_def normalizePath_def isLeaf_def)
  have c: "classifyNavigation projectsTable ''/users/1/projects/9?tab=a''
     ''/users/1/projects/10?tab=b'' False =
     Inr [MustRefetch, MustRefetch, MustRefetch, MustRefetch, MustRefetch]"
    unfolding classifyNavigation_def p(1,2) o n
    using p(3) by (simp add: reloadClassification_def projectMatch_def upt_rec)
  have u: "ownParamsUnchanged (projectMatch ''9'') (projectMatch ''10'')
     (chain (projectMatch ''10'') ! 2)"
    by (simp add: ownParamsUnchanged_def ownParams_def projectMatch_def)
  have d: "normalizePath ''/users/1/projects/9'' \<noteq> normalizePath ''/users/1/projects/10''"
    by (simp add: normalizePath_def)
  show ?thesis
    unfolding p(1,2) o n
    using c u d by (simp add: build_projects projectsTable_def projectMatch_def)
qed

text \<open>
  C5, amended: for two different paths, when the query string did not change and the
  navigation is not action-triggered, a node of the new chain is classified
  reused-without-refetch if and only if it is at the same depth of both chains, is the
  same node there, and none of the parameters it binds itself changed its value. From
  \<^verbatim>\<open>/users/1/projects/9\<close> to \<^verbatim>\<open>/users/1/projects/10\<close>, in the table of
  \<^verbatim>\<open>/users/[userId]/projects/[id]\<close>, the node of the project is must-refetch and
  every node above it, the node of the user included, is reused-without-refetch.
\<close>

theorem reuse_without_blanket:
  "(resolve tree (pathPart oldUrl) = Inr old \<and> resolve tree (pathPart newUrl) = Inr new \<and>
    normalizePath (pathPart oldUrl) \<noteq> normalizePath (pathPart newUrl) \<and>
    queryPart oldUrl = queryPart newUrl \<and> i < length (chain new) \<longrightarrow>
      (\<exists>cs. classifyNavigation tree oldUrl newUrl False = Inr cs \<and>
         length cs = length (chain new) \<and>
         (cs ! i = ReusedWithoutRefetch \<longleftrightarrow>
            i < length (chain old) \<and> chain old ! i = chain new ! i \<and>
            (\<forall>n \<in> set (ownParams (chain new ! i)).
                map_of (params old) n = map_of (params new) n)))) \<and>
   buildRouteTable [route ''/users/[userId]/projects/[id]'' 1] = Inr projectsTable \<and>
   classifyNavigation projectsTable ''/users/1/projects/9'' ''/users/1/projects/10'' False =
     Inr [ReusedWithoutRefetch, ReusedWithoutRefetch, ReusedWithoutRefetch,
          ReusedWithoutRefetch, MustRefetch]"
proof (intro conjI impI)
  assume a: "resolve tree (pathPart oldUrl) = Inr old \<and> resolve tree (pathPart newUrl) = Inr new \<and>
    normalizePath (pathPart oldUrl) \<noteq> normalizePath (pathPart newUrl) \<and>
    queryPart oldUrl = queryPart newUrl \<and> i < length (chain new)"
  then have "classifyNavigation tree oldUrl newUrl False =
      Inr (map (classifyNode old new) [0..<length (chain new)])"
    by (simp add: classifyNavigation_def reloadClassification_def)
  moreover have "map (classifyNode old new) [0..<length (chain new)] ! i = classifyNode old new i"
    using a by simp
  ultimately show "\<exists>cs. classifyNavigation tree oldUrl newUrl False = Inr cs \<and>
         length cs = length (chain new) \<and>
         (cs ! i = ReusedWithoutRefetch \<longleftrightarrow>
            i < length (chain old) \<and> chain old ! i = chain new ! i \<and>
            (\<forall>n \<in> set (ownParams (chain new ! i)).
                map_of (params old) n = map_of (params new) n))"
    by (simp add: classifyNode_def ownParamsUnchanged_def list_all_iff)
next
  show "buildRouteTable [route ''/users/[userId]/projects/[id]'' 1] = Inr projectsTable"
    by (simp add: build_projects projectsTable_def)
next
  have p: "pathPart ''/users/1/projects/9'' = ''/users/1/projects/9''"
    "pathPart ''/users/1/projects/10'' = ''/users/1/projects/10''"
    "queryPart ''/users/1/projects/9'' = queryPart ''/users/1/projects/10''"
    by (simp_all add: pathPart_def queryPart_def)
  show "classifyNavigation projectsTable ''/users/1/projects/9'' ''/users/1/projects/10'' False =
     Inr [ReusedWithoutRefetch, ReusedWithoutRefetch, ReusedWithoutRefetch,
          ReusedWithoutRefetch, MustRefetch]"
    unfolding classifyNavigation_def p(1,2) resolve_project9 resolve_project10
    using p(3)
    by (simp add: reloadClassification_def projectMatch_def upt_rec classifyNode_def
        ownParamsUnchanged_def ownParams_def)
qed

theorem reuse_without_blanket_witness:
  "resolve projectsTable (pathPart ''/users/1/projects/9'') = Inr (projectMatch ''9'') \<and>
   resolve projectsTable (pathPart ''/users/1/projects/10'') = Inr (projectMatch ''10'') \<and>
   normalizePath (pathPart ''/users/1/projects/9'') \<noteq>
     normalizePath (pathPart ''/users/1/projects/10'') \<and>
   queryPart ''/users/1/projects/9'' = queryPart ''/users/1/projects/10'' \<and>
   (\<exists>cs. classifyNavigation projectsTable ''/users/1/projects/9'' ''/users/1/projects/10''
            False = Inr cs \<and>
      chain (projectMatch ''10'') ! 2 = [Static ''users'', Dynamic ''userId''] \<and>
      cs ! 2 = ReusedWithoutRefetch \<and>
      chain (projectMatch ''10'') ! 4 =
        [Static ''users'', Dynamic ''userId'', Static ''projects'', Dynamic ''id''] \<and>
      cs ! 4 \<noteq> ReusedWithoutRefetch)"
proof -
  have p: "pathPart ''/users/1/projects/9'' = ''/users/1/projects/9''"
    "pathPart ''/users/1/projects/10'' = ''/users/1/projects/10''"
    by (simp_all add: pathPart_def)
  have q: "queryPart ''/users/1/projects/9'' = queryPart ''/users/1/projects/10''"
    by (simp add: queryPart_def)
  have d: "normalizePath ''/users/1/projects/9'' \<noteq> normalizePath ''/users/1/projects/10''"
    by (simp add: normalizePath_def)
  have h2: "resolve projectsTable (pathPart ''/users/1/projects/9'') = Inr (projectMatch ''9'') \<and>
      resolve projectsTable (pathPart ''/users/1/projects/10'') = Inr (projectMatch ''10'') \<and>
      normalizePath (pathPart ''/users/1/projects/9'') \<noteq>
        normalizePath (pathPart ''/users/1/projects/10'') \<and>
      queryPart ''/users/1/projects/9'' = queryPart ''/users/1/projects/10'' \<and>
      2 < length (chain (projectMatch ''10''))"
    unfolding p using q d by (simp add: resolve_project9 resolve_project10 projectMatch_def)
  have h4: "resolve projectsTable (pathPart ''/users/1/projects/9'') = Inr (projectMatch ''9'') \<and>
      resolve projectsTable (pathPart ''/users/1/projects/10'') = Inr (projectMatch ''10'') \<and>
      normalizePath (pathPart ''/users/1/projects/9'') \<noteq>
        normalizePath (pathPart ''/users/1/projects/10'') \<and>
      queryPart ''/users/1/projects/9'' = queryPart ''/users/1/projects/10'' \<and>
      4 < length (chain (projectMatch ''10''))"
    unfolding p using q d by (simp add: resolve_project9 resolve_project10 projectMatch_def)
  from reuse_without_blanket [of projectsTable "''/users/1/projects/9''" "projectMatch ''9''"
      "''/users/1/projects/10''" "projectMatch ''10''" 2] h2
  obtain cs where cs: "classifyNavigation projectsTable ''/users/1/projects/9''
        ''/users/1/projects/10'' False = Inr cs"
    and c2: "cs ! 2 = ReusedWithoutRefetch \<longleftrightarrow>
            2 < length (chain (projectMatch ''9'')) \<and>
            chain (projectMatch ''9'') ! 2 = chain (projectMatch ''10'') ! 2 \<and>
            (\<forall>n \<in> set (ownParams (chain (projectMatch ''10'') ! 2)).
                map_of (params (projectMatch ''9'')) n = map_of (params (projectMatch ''10'')) n)"
    by blast
  from reuse_without_blanket [of projectsTable "''/users/1/projects/9''" "projectMatch ''9''"
      "''/users/1/projects/10''" "projectMatch ''10''" 4] h4
  obtain cs' where cs': "classifyNavigation projectsTable ''/users/1/projects/9''
        ''/users/1/projects/10'' False = Inr cs'"
    and c4: "cs' ! 4 = ReusedWithoutRefetch \<longleftrightarrow>
            4 < length (chain (projectMatch ''9'')) \<and>
            chain (projectMatch ''9'') ! 4 = chain (projectMatch ''10'') ! 4 \<and>
            (\<forall>n \<in> set (ownParams (chain (projectMatch ''10'') ! 4)).
                map_of (params (projectMatch ''9'')) n = map_of (params (projectMatch ''10'')) n)"
    by blast
  from cs cs' have same: "cs' = cs" by simp
  have r2: "cs ! 2 = ReusedWithoutRefetch"
    using c2 by (simp add: projectMatch_def ownParams_def)
  have r4: "cs ! 4 \<noteq> ReusedWithoutRefetch"
    using c4 unfolding same by (simp add: projectMatch_def ownParams_def)
  have "chain (projectMatch ''10'') ! 2 = [Static ''users'', Dynamic ''userId'']"
    "chain (projectMatch ''10'') ! 4 =
        [Static ''users'', Dynamic ''userId'', Static ''projects'', Dynamic ''id'']"
    by (simp_all add: projectMatch_def)
  with h2 cs r2 r4 show ?thesis by blast
qed

text \<open>
  C6: when both paths resolve and the query string changes, or the navigation is
  flagged as action-triggered, every node of the new chain is classified must-refetch,
  whatever the two match results are.
\<close>

theorem blanket_invalidation:
  "resolve tree (pathPart oldUrl) = Inr old \<and> resolve tree (pathPart newUrl) = Inr new \<and>
   (queryPart oldUrl \<noteq> queryPart newUrl \<or> actionTriggered) \<longrightarrow>
     classifyNavigation tree oldUrl newUrl actionTriggered =
       Inr (replicate (length (chain new)) MustRefetch)"
  by (auto simp: classifyNavigation_def reloadClassification_def map_replicate_const)

theorem blanket_invalidation_witness:
  "(case buildRouteTable [route ''/a'' 1] of
      Inl e \<Rightarrow> False
    | Inr tree \<Rightarrow>
        classifyNavigation tree ''/a?x=1'' ''/a?x=2'' False = Inr [MustRefetch, MustRefetch] \<and>
        classifyNavigation tree ''/a'' ''/a'' True = Inr [MustRefetch, MustRefetch])"
proof -
  let ?t = "RouteNode Pathless None [RouteNode (Static ''a'') (Some (True, 1)) []]"
  let ?m = "\<lparr>chain = [[], [Static ''a'']], params = [], remainder = []\<rparr>"
  have r: "resolve ?t ''/a'' = Inr ?m"
    by (simp add: resolve_def normalizePath_def isLeaf_def)
  have p: "pathPart ''/a?x=1'' = ''/a''" "pathPart ''/a?x=2'' = ''/a''"
    "pathPart ''/a'' = ''/a''" "queryPart ''/a?x=1'' \<noteq> queryPart ''/a?x=2''"
    by (simp_all add: pathPart_def queryPart_def)
  show ?thesis
    unfolding build_a
    using blanket_invalidation [of ?t "''/a?x=1''" ?m "''/a?x=2''" ?m False]
      blanket_invalidation [of ?t "''/a''" ?m "''/a''" ?m True] r p
    by (simp add: numeral_2_eq_2)
qed

section \<open>Properties of the route table builder\<close>

lemma sameSlot_refl: "sameSlot g g"
  by (cases g) simp_all

lemma childIndex_less: "childIndex g cs = Some i \<Longrightarrow> i < length cs"
  by (induction cs arbitrary: i) (auto split: if_splits)

lemma childIndex_segments:
  "map segment cs = map segment cs' \<Longrightarrow> childIndex g cs = childIndex g cs'"
proof (induction cs arbitrary: cs')
  case Nil
  then show ?case by simp
next
  case (Cons c cs)
  then obtain c' cs'' where "cs' = c' # cs''" by (cases cs') auto
  with Cons show ?case by auto
qed

lemma childIndex_append_Some:
  "childIndex g cs = Some i \<Longrightarrow> childIndex g (cs @ ds) = Some i"
  by (induction cs arbitrary: i) (auto split: if_splits)

lemma childIndex_append_None:
  "childIndex g cs = None \<Longrightarrow> childIndex g (cs @ [c]) = (if sameSlot g (segment c) then Some (length cs) else None)"
  by (induction cs) (auto split: if_splits)

lemma insertRoute_segment: "insertRoute gs d n = Inr n' \<Longrightarrow> segment n' = segment n"
  by (cases gs) (auto split: option.splits sum.splits)

lemma childIndex_update:
  assumes "i < length cs" "segment c = segment (cs ! i)"
  shows "childIndex g (cs[i := c]) = childIndex g cs"
proof (rule childIndex_segments)
  show "map segment (cs[i := c]) = map segment cs"
    using assms by (simp add: map_update list_update_same_conv)
qed

lemma insertRoute_declares:
  "insertRoute gs d n = Inr n' \<Longrightarrow> isDeclaredAt n' gs"
proof (induction gs arbitrary: n n')
  case Nil
  then show ?case by (auto split: option.splits)
next
  case (Cons g gs)
  show ?case
  proof (cases "childIndex g (children n)")
    case None
    with Cons.prems obtain c where c: "insertRoute gs d (RouteNode g None []) = Inr c"
      and n': "n' = RouteNode (segment n) (declared n) (children n @ [c])"
      by (auto split: sum.splits)
    from c have "segment c = g" using insertRoute_segment by fastforce
    with None have "childIndex g (children n') = Some (length (children n))"
      by (simp add: n' childIndex_append_None sameSlot_refl)
    moreover have "isDeclaredAt c gs" using Cons.IH[OF c] .
    ultimately show ?thesis by (simp add: n')
  next
    case (Some i)
    with Cons.prems obtain c where c: "insertRoute gs d (children n ! i) = Inr c"
      and n': "n' = RouteNode (segment n) (declared n) ((children n)[i := c])"
      by (auto split: sum.splits)
    have i: "i < length (children n)" using Some by (rule childIndex_less)
    have "childIndex g (children n') = Some i"
      using Some i insertRoute_segment[OF c] by (simp add: n' childIndex_update)
    moreover have "isDeclaredAt c gs" using Cons.IH[OF c] .
    ultimately show ?thesis using i by (simp add: n')
  qed
qed

lemma insertRoute_keeps:
  "insertRoute gs d n = Inr n' \<Longrightarrow> isDeclaredAt n hs \<Longrightarrow> isDeclaredAt n' hs"
proof (induction gs arbitrary: n n' hs)
  case Nil
  then show ?case by (cases hs) (auto split: option.splits)
next
  case (Cons g gs)
  show ?case
  proof (cases hs)
    case Nil
    with Cons.prems show ?thesis by (auto split: option.splits sum.splits)
  next
    case hs: (Cons h hs')
    from Cons.prems(2) hs obtain j where j: "childIndex h (children n) = Some j"
      and dj: "isDeclaredAt (children n ! j) hs'"
      by (auto split: option.splits)
    have jl: "j < length (children n)" using j by (rule childIndex_less)
    show ?thesis
    proof (cases "childIndex g (children n)")
      case None
      with Cons.prems obtain c where c: "insertRoute gs d (RouteNode g None []) = Inr c"
        and n': "n' = RouteNode (segment n) (declared n) (children n @ [c])"
        by (auto split: sum.splits)
      have "childIndex h (children n') = Some j"
        using j by (simp add: n' childIndex_append_Some)
      then show ?thesis using dj jl by (simp add: hs n' nth_append)
    next
      case (Some i)
      with Cons.prems obtain c where c: "insertRoute gs d (children n ! i) = Inr c"
        and n': "n' = RouteNode (segment n) (declared n) ((children n)[i := c])"
        by (auto split: sum.splits)
      have i: "i < length (children n)" using Some by (rule childIndex_less)
      have ci: "childIndex h (children n') = Some j"
        using j i insertRoute_segment[OF c] by (simp add: n' childIndex_update)
      show ?thesis
      proof (cases "i = j")
        case True
        then have "isDeclaredAt c hs'" using Cons.IH[OF c] dj by simp
        then show ?thesis using ci True i by (simp add: hs n')
      next
        case False
        then show ?thesis using ci dj by (simp add: hs n')
      qed
    qed
  qed
qed

lemma insertRoute_duplicate:
  "isDeclaredAt n gs \<Longrightarrow> insertRoute gs d n = Inl DuplicateRoute"
proof (induction gs arbitrary: n)
  case Nil
  then show ?case by (auto split: option.splits)
next
  case (Cons g gs)
  then show ?case by (auto split: option.splits)
qed

lemma addRoute_declares: "addRoute d t = Inr t' \<Longrightarrow> isDeclaredAt t' (declSegments d)"
  by (auto simp: addRoute_def split: if_splits intro: insertRoute_declares)

lemma addRoute_keeps: "addRoute d t = Inr t' \<Longrightarrow> isDeclaredAt t hs \<Longrightarrow> isDeclaredAt t' hs"
  by (auto simp: addRoute_def split: if_splits intro: insertRoute_keeps)

lemma addRoute_duplicate: "isDeclaredAt t (declSegments d) \<Longrightarrow> addRoute d t = Inl DuplicateRoute"
  by (simp add: addRoute_def insertRoute_duplicate)

lemma addRoute_param_clash:
  "\<not> distinct (paramNames (declSegments d)) \<Longrightarrow> addRoute d t = Inl DuplicateRoute"
  by (simp add: addRoute_def)

lemma buildFrom_redeclared:
  "isDeclaredAt t (declSegments d) \<Longrightarrow> d \<in> set ds \<Longrightarrow> buildFrom t ds = Inl DuplicateRoute"
proof (induction ds arbitrary: t)
  case Nil
  then show ?case by simp
next
  case (Cons x ds)
  show ?case
  proof (cases "addRoute x t")
    case (Inl e)
    then show ?thesis by (cases e) simp
  next
    case (Inr t')
    show ?thesis
    proof (cases "x = d")
      case True
      then show ?thesis using Inr Cons.prems(1) addRoute_duplicate by fastforce
    next
      case False
      then have "d \<in> set ds" using Cons.prems(2) by simp
      moreover have "isDeclaredAt t' (declSegments d)"
        using addRoute_keeps[OF Inr Cons.prems(1)] .
      ultimately show ?thesis using Inr Cons.IH by simp
    qed
  qed
qed

lemma buildFrom_same_path:
  "i < j \<Longrightarrow> j < length ds \<Longrightarrow> declSegments (ds ! i) = declSegments (ds ! j) \<Longrightarrow>
   buildFrom t ds = Inl DuplicateRoute"
proof (induction ds arbitrary: t i j)
  case Nil
  then show ?case by simp
next
  case (Cons x ds)
  show ?case
  proof (cases "addRoute x t")
    case (Inl e)
    then show ?thesis by (cases e) simp
  next
    case (Inr t')
    from Cons.prems obtain j' where j': "j = Suc j'" by (cases j) auto
    show ?thesis
    proof (cases i)
      case 0
      have "isDeclaredAt t' (declSegments (ds ! j'))"
        using addRoute_declares[OF Inr] Cons.prems(3) 0 j' by simp
      moreover have "ds ! j' \<in> set ds" using Cons.prems(2) j' by simp
      ultimately have "buildFrom t' ds = Inl DuplicateRoute" by (rule buildFrom_redeclared)
      then show ?thesis using Inr by simp
    next
      case (Suc i')
      then have "buildFrom t' ds = Inl DuplicateRoute"
        using Cons.prems j' by (intro Cons.IH[of i' j']) auto
      then show ?thesis using Inr by simp
    qed
  qed
qed

lemma buildFrom_param_clash:
  "d \<in> set ds \<Longrightarrow> \<not> distinct (paramNames (declSegments d)) \<Longrightarrow> buildFrom t ds = Inl DuplicateRoute"
proof (induction ds arbitrary: t)
  case Nil
  then show ?case by simp
next
  case (Cons x ds)
  show ?case
  proof (cases "addRoute x t")
    case (Inl e)
    then show ?thesis by (cases e) simp
  next
    case (Inr t')
    then have "x \<noteq> d" using Cons.prems(2) addRoute_param_clash by fastforce
    then show ?thesis using Cons Inr by simp
  qed
qed

text \<open>
  C7: when two declarations of the list normalise to the same path, or one declaration
  binds a parameter name twice on its chain, the builder returns
  \<open>DuplicateRoute\<close> and no table, so there is nothing to resolve against; and
  \<open>DuplicateRoute\<close> is the only error a build returns.
\<close>

theorem duplicate_route_aborts_build:
  "((\<exists>i j. i < j \<and> j < length ds \<and>
        normalizePath (decl_path (ds ! i)) = normalizePath (decl_path (ds ! j))) \<or>
    (\<exists>d \<in> set ds. \<not> distinct (paramNames (declSegments d)))
    \<longrightarrow> buildRouteTable ds = Inl DuplicateRoute \<and> (\<forall>tree. buildRouteTable ds \<noteq> Inr tree)) \<and>
   (\<forall>e. buildRouteTable ds = Inl e \<longrightarrow> e = DuplicateRoute)"
proof (intro conjI impI allI)
  assume a: "(\<exists>i j. i < j \<and> j < length ds \<and>
        normalizePath (decl_path (ds ! i)) = normalizePath (decl_path (ds ! j))) \<or>
    (\<exists>d \<in> set ds. \<not> distinct (paramNames (declSegments d)))"
  then show b: "buildRouteTable ds = Inl DuplicateRoute"
  proof
    assume "\<exists>i j. i < j \<and> j < length ds \<and>
        normalizePath (decl_path (ds ! i)) = normalizePath (decl_path (ds ! j))"
    then obtain i j where "i < j" "j < length ds"
      "declSegments (ds ! i) = declSegments (ds ! j)"
      by (auto simp: declSegments_def)
    then show ?thesis unfolding buildRouteTable_def by (rule buildFrom_same_path)
  next
    assume "\<exists>d \<in> set ds. \<not> distinct (paramNames (declSegments d))"
    then show ?thesis unfolding buildRouteTable_def by (auto intro: buildFrom_param_clash)
  qed
  fix tree show "buildRouteTable ds \<noteq> Inr tree" using b by simp
next
  fix e assume "buildRouteTable ds = Inl e"
  show "e = DuplicateRoute" by (cases e) simp
qed

theorem duplicate_route_aborts_build_witness:
  "buildRouteTable [route ''/admin/settings'' 1, route ''/users/[id]'' 2,
                    route ''admin/settings/'' 3] = Inl DuplicateRoute \<and>
   buildRouteTable [route ''/users/[id]/projects/[id]'' 1] = Inl DuplicateRoute"
proof
  let ?ds = "[route ''/admin/settings'' 1, route ''/users/[id]'' 2, route ''admin/settings/'' 3]"
  have "(0::nat) < 2 \<and> 2 < length ?ds \<and>
      normalizePath (decl_path (?ds ! 0)) = normalizePath (decl_path (?ds ! 2))"
    by (simp add: route_def normalizePath_def)
  then have "\<exists>i j. i < j \<and> j < length ?ds \<and>
      normalizePath (decl_path (?ds ! i)) = normalizePath (decl_path (?ds ! j))"
    by blast
  with duplicate_route_aborts_build [of ?ds]
  show "buildRouteTable ?ds = Inl DuplicateRoute" by blast
next
  let ?ds = "[route ''/users/[id]/projects/[id]'' 1]"
  have "\<not> distinct (paramNames (declSegments (route ''/users/[id]/projects/[id]'' 1)))"
    by (simp add: route_def declSegments_def normalizePath_def parseSegment_def paramNames_def)
  then have "\<exists>d \<in> set ?ds. \<not> distinct (paramNames (declSegments d))"
    by simp
  with duplicate_route_aborts_build [of ?ds]
  show "buildRouteTable ?ds = Inl DuplicateRoute" by blast
qed

end
